theory Spec2Isabelle
  imports Complex_Main "HOL-Library.Sublist" "HOL-Library.Multiset"
begin

section \<open>Policy data model\<close>

text \<open>
  The dataclasses of \<^verbatim>\<open>engine.py\<close> become records with the fields in source order.
  A Python \<^verbatim>\<open>float\<close> field is a \<^typ>\<open>real\<close>: the model covers finite values, on which
  the comparisons of the source are exact. A \<^verbatim>\<open>str\<close> is a \<^typ>\<open>string\<close>. The field
  \<^verbatim>\<open>id\<close> of \<^verbatim>\<open>GPUInfo\<close> is written \<open>id'\<close>, the name \<open>id\<close> being the identity
  function of HOL, and the field \<^verbatim>\<open>values\<close> of \<^verbatim>\<open>ScheduleRule\<close> is written
  \<open>values'\<close>, the word being a command of Isabelle.
\<close>

text \<open>
  Values of type \<^verbatim>\<open>Any\<close> (the values of a requirement dictionary, the parameters of
  a strategy record): a number, a string, a list of strings, or \<^verbatim>\<open>None\<close>.
\<close>

datatype pyval = PNum real | PStr string | PList "string list" | PNone

datatype py_error = TypeError

record GPUInfo =
  id' :: int
  name :: string
  uuid :: string
  memory_gb :: real
  temperature_c :: real
  power_w :: real
  online :: bool
  registered :: bool
  pool :: string
  tags :: "string list"

record GPUPool =
  name :: string
  gpu_types :: "string list"
  min_memory_gb :: real
  max_temp_c :: real
  power_policy :: string
  health_threshold :: real
  opt_strategies :: "(string \<times> pyval) list list"
  health_checks :: "(string \<times> pyval) list list"

record ScheduleRule =
  type :: string
  metric :: "string option"
  strategy :: "string option"
  values' :: "string list option"
  allow :: "bool option"

record ScheduleRuleset =
  name :: string
  rules :: "ScheduleRule list"

record Policy =
  name :: string
  version :: string
  pools :: "GPUPool list"
  schedules :: "ScheduleRuleset list"



section \<open>Registry\<close>

text \<open>
  A Python \<^verbatim>\<open>dict\<close> keeps its keys in insertion order, and an assignment to a key
  that is present replaces the value where the key stands. It is an association list
  without repeated keys; \<open>dict_setitem\<close> is the assignment \<^verbatim>\<open>d[k] = v\<close>,
  \<open>dict_get\<close> is \<^verbatim>\<open>d.get(k)\<close> and \<open>dict_values\<close> is \<^verbatim>\<open>list(d.values())\<close>.
\<close>

fun dict_setitem :: "'k \<Rightarrow> 'v \<Rightarrow> ('k \<times> 'v) list \<Rightarrow> ('k \<times> 'v) list" where
  "dict_setitem k v [] = [(k, v)]"
| "dict_setitem k v ((k', v') # d) =
     (if k' = k then (k', v) # d else (k', v') # dict_setitem k v d)"

fun dict_get :: "'k \<Rightarrow> ('k \<times> 'v) list \<Rightarrow> 'v option" where
  "dict_get k [] = None"
| "dict_get k ((k', v') # d) = (if k' = k then Some v' else dict_get k d)"

definition dict_values :: "('k \<times> 'v) list \<Rightarrow> 'v list" where
  "dict_values d = map snd d"

record GPUOpsModule =
  pools :: "(string \<times> GPUPool) list"
  schedules :: "(string \<times> ScheduleRuleset) list"

definition GPUOpsModule_init :: GPUOpsModule where
  "GPUOpsModule_init = \<lparr>GPUOpsModule.pools = [], GPUOpsModule.schedules = []\<rparr>"

text \<open>
  A method that reads or writes \<^verbatim>\<open>self\<close> takes the object and returns its result
  with the object as the call leaves it. The two registrations return \<^verbatim>\<open>None\<close> and
  print one line, which is the first component of their result.
\<close>

definition register_pool :: "GPUOpsModule \<Rightarrow> GPUPool \<Rightarrow> string \<times> GPUOpsModule" where
  "register_pool self p =
     (''[Policy] Registered pool: '' @ GPUPool.name p,
      self\<lparr>GPUOpsModule.pools := dict_setitem (GPUPool.name p) p (GPUOpsModule.pools self)\<rparr>)"

definition register_schedule :: "GPUOpsModule \<Rightarrow> ScheduleRuleset \<Rightarrow> string \<times> GPUOpsModule" where
  "register_schedule self s =
     (''[Policy] Registered schedule: '' @ ScheduleRuleset.name s,
      self\<lparr>GPUOpsModule.schedules :=
             dict_setitem (ScheduleRuleset.name s) s (GPUOpsModule.schedules self)\<rparr>)"

definition get_pool :: "GPUOpsModule \<Rightarrow> string \<Rightarrow> GPUPool option \<times> GPUOpsModule" where
  "get_pool self n = (dict_get n (GPUOpsModule.pools self), self)"

definition get_all_pools :: "GPUOpsModule \<Rightarrow> GPUPool list \<times> GPUOpsModule" where
  "get_all_pools self = (dict_values (GPUOpsModule.pools self), self)"

definition get_schedule :: "GPUOpsModule \<Rightarrow> string \<Rightarrow> ScheduleRuleset option \<times> GPUOpsModule" where
  "get_schedule self n = (dict_get n (GPUOpsModule.schedules self), self)"

section \<open>Policy engine\<close>

text \<open>
  Of the attributes of \<^verbatim>\<open>PolicyEngine\<close> the model keeps the loaded policies and the
  registry; the directory path and the table of factory functions play no part in
  evaluation.
\<close>

record PolicyEngine =
  policies :: "(string \<times> Policy) list"
  gpu_ops :: GPUOpsModule

definition PolicyEngine_init :: PolicyEngine where
  "PolicyEngine_init = \<lparr>policies = [], gpu_ops = GPUOpsModule_init\<rparr>"

text \<open>
  \<^verbatim>\<open>t in s\<close> on two strings: \<open>t\<close> occurs in \<open>s\<close> as a contiguous run of characters,
  compared character by character.
\<close>

fun str_startswith :: "string \<Rightarrow> string \<Rightarrow> bool" where
  "str_startswith s [] = True"
| "str_startswith [] (c # t) = False"
| "str_startswith (d # s) (c # t) = (d = c \<and> str_startswith s t)"

fun str_contains :: "string \<Rightarrow> string \<Rightarrow> bool" where
  "str_contains t [] = (t = [])"
| "str_contains t (c # s) = (str_startswith (c # s) t \<or> str_contains t s)"

text \<open>
  \<^verbatim>\<open>_matches_pool\<close>, \<^verbatim>\<open>_meets_requirements\<close> and \<^verbatim>\<open>_score_gpu\<close> never touch
  \<^verbatim>\<open>self\<close>: they are functions of their other arguments. Each \<^verbatim>\<open>return False\<close>
  of the source is one branch, in the order of the source.
\<close>

definition matches_pool :: "GPUInfo \<Rightarrow> GPUPool \<Rightarrow> bool" where
  "matches_pool gpu p =
     (if gpu_types p \<noteq> [] \<and> GPUInfo.name gpu \<notin> set (gpu_types p)
         \<and> \<not> list_ex (\<lambda>t. str_contains t (GPUInfo.name gpu)) (gpu_types p) then False
      else if memory_gb gpu < min_memory_gb p then False
      else if temperature_c gpu > max_temp_c p then False
      else if pool gpu \<noteq> [] \<and> pool gpu \<noteq> GPUPool.name p then False
      else True)"

text \<open>
  The comparison of a \<^verbatim>\<open>float\<close> with a value of a requirement dictionary, and
  \<^verbatim>\<open>set(v)\<close>: Python raises \<^verbatim>\<open>TypeError\<close> when the value is not a number, or is not
  iterable. Iterating a string yields its characters as strings of length one.
\<close>

fun float_lt :: "real \<Rightarrow> pyval \<Rightarrow> py_error + bool" where
  "float_lt x (PNum y) = Inr (x < y)"
| "float_lt x v = Inl TypeError"

fun float_gt :: "real \<Rightarrow> pyval \<Rightarrow> py_error + bool" where
  "float_gt x (PNum y) = Inr (x > y)"
| "float_gt x v = Inl TypeError"

fun py_set :: "pyval \<Rightarrow> py_error + string set" where
  "py_set (PList ts) = Inr (set ts)"
| "py_set (PStr s) = Inr (set (map (\<lambda>c. [c]) s))"
| "py_set v = Inl TypeError"

type_synonym requirements = "string \<rightharpoonup> pyval"

definition meets_requirements :: "GPUInfo \<Rightarrow> requirements \<Rightarrow> py_error + bool" where
  "meets_requirements gpu req =
     (case (case req ''min_memory'' of None \<Rightarrow> Inr False
            | Some v \<Rightarrow> float_lt (memory_gb gpu) v) of
        Inl e \<Rightarrow> Inl e
      | Inr True \<Rightarrow> Inr False
      | Inr False \<Rightarrow>
         (case (case req ''max_temp'' of None \<Rightarrow> Inr False
                | Some v \<Rightarrow> float_gt (temperature_c gpu) v) of
            Inl e \<Rightarrow> Inl e
          | Inr True \<Rightarrow> Inr False
          | Inr False \<Rightarrow>
             (case req ''tags'' of None \<Rightarrow> Inr True
              | Some v \<Rightarrow>
                 (case py_set v of Inl e \<Rightarrow> Inl e
                  | Inr required_tags \<Rightarrow>
                     (if \<not> required_tags \<subseteq> set (tags gpu) then Inr False
                      else Inr True)))))"

text \<open>
  The loop of \<^verbatim>\<open>evaluate_allocation\<close> over the pools. The \<^verbatim>\<open>and\<close> of the source
  evaluates \<^verbatim>\<open>_meets_requirements\<close> only for a pool that matches, so an error of the
  requirement check surfaces at the first matching pool.
\<close>

fun evaluate_loop :: "GPUInfo \<Rightarrow> requirements \<Rightarrow> GPUPool list \<Rightarrow> py_error + bool" where
  "evaluate_loop gpu req [] = Inr False"
| "evaluate_loop gpu req (p # ps) =
     (if matches_pool gpu p then
        (case meets_requirements gpu req of
           Inl e \<Rightarrow> Inl e
         | Inr True \<Rightarrow> Inr True
         | Inr False \<Rightarrow> evaluate_loop gpu req ps)
      else evaluate_loop gpu req ps)"

definition evaluate_allocation ::
  "PolicyEngine \<Rightarrow> GPUInfo \<Rightarrow> requirements \<Rightarrow> (py_error + bool) \<times> PolicyEngine" where
  "evaluate_allocation self gpu req =
     (case get_all_pools (gpu_ops self) of
        (ps, ops) \<Rightarrow> (evaluate_loop gpu req ps, self\<lparr>gpu_ops := ops\<rparr>))"

definition score_gpu :: "GPUInfo \<Rightarrow> real" where
  "score_gpu gpu =
     (let score = 1.0;
          score = (if online gpu then score + 0.5 else score);
          score = (if memory_gb gpu \<ge> 16 then score + 0.3 else score);
          score = (if temperature_c gpu < 60 then score + 0.2
                   else if temperature_c gpu > 80 then score - 0.3
                   else score)
      in score)"

text \<open>
  \<^verbatim>\<open>list.sort(key=f, reverse=True)\<close>: a stable sort by descending key. CPython
  reverses the list, sorts it stably by ascending key and reverses the result, which
  keeps elements of equal key in their original order.
\<close>

definition sort_reverse :: "('a \<Rightarrow> real) \<Rightarrow> 'a list \<Rightarrow> 'a list" where
  "sort_reverse f xs = rev (sort_key f (rev xs))"

fun recommend_loop ::
  "PolicyEngine \<Rightarrow> requirements \<Rightarrow> GPUInfo list \<Rightarrow> (GPUInfo \<times> real) list \<Rightarrow>
   (py_error + (GPUInfo \<times> real) list) \<times> PolicyEngine" where
  "recommend_loop self req [] recommended = (Inr recommended, self)"
| "recommend_loop self req (gpu # gpus) recommended =
     (case evaluate_allocation self gpu req of
        (Inl e, self') \<Rightarrow> (Inl e, self')
      | (Inr True, self') \<Rightarrow>
          recommend_loop self' req gpus (recommended @ [(gpu, score_gpu gpu)])
      | (Inr False, self') \<Rightarrow> recommend_loop self' req gpus recommended)"

definition get_recommended_gpus ::
  "PolicyEngine \<Rightarrow> GPUInfo list \<Rightarrow> requirements \<Rightarrow> (py_error + GPUInfo list) \<times> PolicyEngine" where
  "get_recommended_gpus self gpus req =
     (case recommend_loop self req gpus [] of
        (Inl e, self') \<Rightarrow> (Inl e, self')
      | (Inr recommended, self') \<Rightarrow> (Inr (map fst (sort_reverse snd recommended)), self'))"

section \<open>Well-typed requirements, call sequences and sample values\<close>

text \<open>
  The requirement dictionary is typed \<^verbatim>\<open>Dict[str, Any]\<close>. It is well typed when
  \<^verbatim>\<open>min_memory\<close> and \<^verbatim>\<open>max_temp\<close>, where present, are numbers and \<^verbatim>\<open>tags\<close>,
  where present, is a collection of strings.
\<close>

definition req_well_typed :: "requirements \<Rightarrow> bool" where
  "req_well_typed req =
     ((case req ''min_memory'' of None \<Rightarrow> True | Some (PNum m) \<Rightarrow> True | Some v \<Rightarrow> False)
      \<and> (case req ''max_temp'' of None \<Rightarrow> True | Some (PNum t) \<Rightarrow> True | Some v \<Rightarrow> False)
      \<and> (case req ''tags'' of None \<Rightarrow> True | Some (PList ts) \<Rightarrow> True | Some v \<Rightarrow> False))"

text \<open>A sequence of registrations, run from left to right on a registry.\<close>

datatype reg_call = RegisterPool GPUPool | RegisterSchedule ScheduleRuleset

fun run_calls :: "GPUOpsModule \<Rightarrow> reg_call list \<Rightarrow> GPUOpsModule" where
  "run_calls self [] = self"
| "run_calls self (RegisterPool p # cs) = run_calls (snd (register_pool self p)) cs"
| "run_calls self (RegisterSchedule s # cs) = run_calls (snd (register_schedule self s)) cs"

fun registered_pools :: "reg_call list \<Rightarrow> GPUPool list" where
  "registered_pools [] = []"
| "registered_pools (RegisterPool p # cs) = p # registered_pools cs"
| "registered_pools (RegisterSchedule s # cs) = registered_pools cs"

fun registered_schedules :: "reg_call list \<Rightarrow> ScheduleRuleset list" where
  "registered_schedules [] = []"
| "registered_schedules (RegisterPool p # cs) = registered_schedules cs"
| "registered_schedules (RegisterSchedule s # cs) = s # registered_schedules cs"

text \<open>
  What the specification says of the registry, in its own words: the entry under a name
  is the most recent registration of that name (\<open>latest\<close>), and the listing has one
  position per name, in the order in which the names were first registered
  (\<open>first_occurrences\<close>).
\<close>

definition latest :: "('a \<Rightarrow> string) \<Rightarrow> string \<Rightarrow> 'a list \<Rightarrow> 'a option" where
  "latest key n xs = find (\<lambda>x. key x = n) (rev xs)"

fun first_occurrences :: "string list \<Rightarrow> string list" where
  "first_occurrences [] = []"
| "first_occurrences (n # ns) = n # removeAll n (first_occurrences ns)"

text \<open>
  Sample values: the pool and the devices of the end-to-end scenarios, and the device
  that \<^verbatim>\<open>main\<close> builds for \<^verbatim>\<open>--test-gpu 0\<close>.
\<close>

definition high_mem :: GPUPool where
  "high_mem = \<lparr>GPUPool.name = ''high-mem'', gpu_types = [], min_memory_gb = 16, max_temp_c = 80,
       power_policy = ''adaptive'', health_threshold = 0.9, opt_strategies = [],
       health_checks = []\<rparr>"

definition test_gpu :: GPUInfo where
  "test_gpu = \<lparr>id' = 0, name = ''NVIDIA GeForce RTX 5070 Ti'', uuid = ''GPU-00000000'',
       memory_gb = 24, temperature_c = 35, power_w = 10, online = True, registered = False,
       pool = [], tags = []\<rparr>"

definition hot_gpu :: GPUInfo where
  "hot_gpu = test_gpu\<lparr>id' := 1, temperature_c := 85, memory_gb := 20\<rparr>"

definition small_gpu :: GPUInfo where
  "small_gpu = test_gpu\<lparr>id' := 2, memory_gb := 8\<rparr>"

definition rtx_pool :: GPUPool where
  "rtx_pool = high_mem\<lparr>GPUPool.name := ''rtx'', gpu_types := [''RTX'', ''A100''], max_temp_c := 90\<rparr>"

definition balanced :: ScheduleRuleset where
  "balanced = \<lparr>ScheduleRuleset.name = ''balanced'',
       rules = [\<lparr>type = ''balance'', metric = Some ''memory'', strategy = None,
                 values' = None, allow = None\<rparr>]\<rparr>"

definition sample_calls :: "reg_call list" where
  "sample_calls = [RegisterPool high_mem, RegisterSchedule balanced, RegisterPool rtx_pool,
       RegisterPool (high_mem\<lparr>min_memory_gb := 32\<rparr>)]"

definition engine_with :: "GPUPool list \<Rightarrow> PolicyEngine" where
  "engine_with ps =
     PolicyEngine_init\<lparr>gpu_ops := run_calls GPUOpsModule_init (map RegisterPool ps)\<rparr>"

section \<open>Pool admission\<close>

lemma str_startswith_prefix: "str_startswith s t \<longleftrightarrow> prefix t s"
  by (induction s t rule: str_startswith.induct) auto

lemma str_contains_sublist: "str_contains t s \<longleftrightarrow> sublist t s"
proof (induction s)
  case Nil
  show ?case by simp
next
  case (Cons c s)
  show ?case
    by (simp only: str_contains.simps str_startswith_prefix sublist_Cons_right Cons.IH)
qed

lemma str_contains_iff: "str_contains t s \<longleftrightarrow> (\<exists>ps ss. s = ps @ t @ ss)"
  by (simp add: str_contains_sublist sublist_def)

lemma str_contains_refl: "str_contains s s"
  by (simp add: str_contains_sublist)

lemma name_check_iff:
  "(gpu_types p \<noteq> [] \<and> n \<notin> set (gpu_types p) \<and> \<not> list_ex (\<lambda>t. str_contains t n) (gpu_types p))
   \<longleftrightarrow> (gpu_types p \<noteq> [] \<and> \<not> (\<exists>t \<in> set (gpu_types p). str_contains t n))"
  using str_contains_refl by (auto simp: list_ex_iff)

text \<open>
  C3: a device matches a pool exactly when (1) the pool lists no name substring or one
  of the listed strings occurs in the device's name, (2) the device's memory is at least
  the pool's minimum, (3) its temperature is at most the pool's maximum, and (4) its
  assigned pool is empty or is the pool's name. Occurrence is case-sensitive
  containment: the name is some prefix, then the listed string, then some suffix.
\<close>

theorem matches_pool_iff:
  "matches_pool D P \<longleftrightarrow>
     (gpu_types P \<noteq> [] \<longrightarrow> (\<exists>t \<in> set (gpu_types P). \<exists>ps ss. GPUInfo.name D = ps @ t @ ss))
     \<and> memory_gb D \<ge> min_memory_gb P
     \<and> temperature_c D \<le> max_temp_c P
     \<and> (pool D \<noteq> [] \<longrightarrow> pool D = GPUPool.name P)"
proof -
  have "matches_pool D P \<longleftrightarrow>
     \<not> (gpu_types P \<noteq> [] \<and> \<not> (\<exists>t \<in> set (gpu_types P). str_contains t (GPUInfo.name D)))
     \<and> \<not> memory_gb D < min_memory_gb P
     \<and> \<not> temperature_c D > max_temp_c P
     \<and> \<not> (pool D \<noteq> [] \<and> pool D \<noteq> GPUPool.name P)"
    unfolding matches_pool_def name_check_iff by simp
  then show ?thesis
    by (auto simp: str_contains_iff not_less)
qed
theorem matches_pool_iff_witness:
  "matches_pool test_gpu rtx_pool
   \<and> gpu_types rtx_pool \<noteq> []
   \<and> (\<exists>t \<in> set (gpu_types rtx_pool). \<exists>ps ss. GPUInfo.name test_gpu = ps @ t @ ss)
   \<and> (pool (test_gpu\<lparr>pool := ''rtx''\<rparr>) \<noteq> []
        \<and> matches_pool (test_gpu\<lparr>pool := ''rtx''\<rparr>) rtx_pool)
   \<and> \<not> matches_pool (test_gpu\<lparr>pool := ''other''\<rparr>) rtx_pool"
proof -
  have occ: "GPUInfo.name test_gpu = ''NVIDIA GeForce '' @ ''RTX'' @ '' 5070 Ti''"
    by (simp add: test_gpu_def)
  have ex: "\<exists>t \<in> set (gpu_types rtx_pool). \<exists>ps ss. GPUInfo.name test_gpu = ps @ t @ ss"
    unfolding occ by (rule bexI [where x = "''RTX''"]) (blast, simp add: rtx_pool_def high_mem_def)
  have m1: "matches_pool test_gpu rtx_pool"
    using ex matches_pool_iff [of test_gpu rtx_pool]
    by (simp add: test_gpu_def rtx_pool_def high_mem_def)
  have m2: "matches_pool (test_gpu\<lparr>pool := ''rtx''\<rparr>) rtx_pool"
    using ex matches_pool_iff [of "test_gpu\<lparr>pool := ''rtx''\<rparr>" rtx_pool]
    by (simp add: test_gpu_def rtx_pool_def high_mem_def)
  have m3: "\<not> matches_pool (test_gpu\<lparr>pool := ''other''\<rparr>) rtx_pool"
    using matches_pool_iff [of "test_gpu\<lparr>pool := ''other''\<rparr>" rtx_pool]
    by (simp add: test_gpu_def rtx_pool_def high_mem_def)
  show ?thesis
    using m1 m2 m3 ex by (simp add: rtx_pool_def high_mem_def)
qed

section \<open>Score\<close>

text \<open>
  The additions of \<^verbatim>\<open>_score_gpu\<close> are additions of floats. Each of the twelve sums
  that the three conditions can produce is the float nearest to the decimal value it has
  here, and two of them are equal, or ordered, as floats exactly when they are as
  decimals; so the scores of the model compare as the scores of the source do.
\<close>

text \<open>
  C4: the score is 1.0, plus 0.5 for an online device, plus 0.3 for at least 16 GB of
  memory, plus 0.2 below 60 degrees, minus 0.3 above 80 degrees. The bonus and the
  penalty never apply together, and from 60 to 80 degrees inclusive the temperature
  contributes nothing. The device at 85 degrees, online, with 20 GB scores 1.5. The score
  is a function of the device alone, and of its three fields \<open>online\<close>,
  \<open>memory_gb\<close> and \<open>temperature_c\<close> only.
\<close>

theorem score_gpu_formula:
  "score_gpu D = 1.0 + (if online D then 0.5 else 0) + (if memory_gb D \<ge> 16 then 0.3 else 0)
                 + (if temperature_c D < 60 then 0.2 else 0)
                 - (if temperature_c D > 80 then 0.3 else 0)
   \<and> \<not> (temperature_c D < 60 \<and> temperature_c D > 80)
   \<and> (60 \<le> temperature_c D \<and> temperature_c D \<le> 80 \<longrightarrow>
        score_gpu D = 1.0 + (if online D then 0.5 else 0)
                      + (if memory_gb D \<ge> 16 then 0.3 else 0))
   \<and> (temperature_c D = 85 \<and> online D \<and> memory_gb D = 20 \<longrightarrow> score_gpu D = 1.5)
   \<and> (online D' = online D \<and> memory_gb D' = memory_gb D
        \<and> temperature_c D' = temperature_c D \<longrightarrow> score_gpu D' = score_gpu D)"
  by (simp add: score_gpu_def Let_def)

theorem score_gpu_formula_witness:
  "temperature_c hot_gpu = 85 \<and> online hot_gpu \<and> memory_gb hot_gpu = 20
   \<and> score_gpu hot_gpu = 1.5
   \<and> 60 \<le> temperature_c (hot_gpu\<lparr>temperature_c := 80\<rparr>)
   \<and> temperature_c (hot_gpu\<lparr>temperature_c := 80\<rparr>) \<le> 80
   \<and> score_gpu (hot_gpu\<lparr>temperature_c := 80\<rparr>) = 1.8
   \<and> score_gpu (hot_gpu\<lparr>uuid := ''GPU-00000007''\<rparr>) = score_gpu hot_gpu"
proof -
  have h: "temperature_c hot_gpu = 85 \<and> online hot_gpu \<and> memory_gb hot_gpu = 20"
    by (simp add: hot_gpu_def test_gpu_def)
  have b: "60 \<le> temperature_c (hot_gpu\<lparr>temperature_c := 80\<rparr>)
           \<and> temperature_c (hot_gpu\<lparr>temperature_c := 80\<rparr>) \<le> 80"
    by simp
  show ?thesis
    using h b score_gpu_formula [of hot_gpu "hot_gpu\<lparr>uuid := ''GPU-00000007''\<rparr>"]
      score_gpu_formula [of "hot_gpu\<lparr>temperature_c := 80\<rparr>" hot_gpu]
    by simp
qed

text \<open>
  C10: every score lies between 0.7 and 2.0 inclusive. It is 0.7 exactly for an offline
  device with less than 16 GB above 80 degrees, and 2.0 exactly for an online device with
  at least 16 GB below 60 degrees.
\<close>

theorem score_gpu_bounds:
  "0.7 \<le> score_gpu D \<and> score_gpu D \<le> 2.0
   \<and> (score_gpu D = 0.7 \<longleftrightarrow> \<not> online D \<and> memory_gb D < 16 \<and> temperature_c D > 80)
   \<and> (score_gpu D = 2.0 \<longleftrightarrow> online D \<and> memory_gb D \<ge> 16 \<and> temperature_c D < 60)"
  by (simp add: score_gpu_def Let_def not_le)

theorem score_gpu_bounds_witness:
  "score_gpu test_gpu = 2.0
   \<and> score_gpu (small_gpu\<lparr>online := False, temperature_c := 81\<rparr>) = 0.7
   \<and> 0.7 \<le> score_gpu hot_gpu \<and> score_gpu hot_gpu \<le> 2.0
   \<and> score_gpu hot_gpu \<noteq> 0.7 \<and> score_gpu hot_gpu \<noteq> 2.0"
  using score_gpu_bounds [of test_gpu] score_gpu_bounds [of hot_gpu]
    score_gpu_bounds [of "small_gpu\<lparr>online := False, temperature_c := 81\<rparr>"]
  by (simp add: test_gpu_def hot_gpu_def small_gpu_def)
text \<open>
  C8: when the pool lists name substrings and none of them occurs in the device's name,
  the device does not match. Adding to the list, at any position, a string that does
  occur in the name makes the name criterion pass: the device then matches exactly when
  the memory, temperature and assigned-pool criteria hold.
\<close>

theorem matches_pool_substring_added:
  "(gpu_types P \<noteq> [] \<and> \<not> (\<exists>u \<in> set (gpu_types P). \<exists>ps ss. GPUInfo.name D = ps @ u @ ss)
      \<longrightarrow> \<not> matches_pool D P)
   \<and> (gpu_types P = xs @ ys \<and> (\<exists>ps ss. GPUInfo.name D = ps @ t @ ss) \<longrightarrow>
        (matches_pool D (P\<lparr>gpu_types := xs @ [t] @ ys\<rparr>) \<longleftrightarrow>
           memory_gb D \<ge> min_memory_gb P \<and> temperature_c D \<le> max_temp_c P
           \<and> (pool D \<noteq> [] \<longrightarrow> pool D = GPUPool.name P)))"
proof (intro conjI impI)
  assume "gpu_types P \<noteq> [] \<and> \<not> (\<exists>u \<in> set (gpu_types P). \<exists>ps ss. GPUInfo.name D = ps @ u @ ss)"
  then have "gpu_types P \<noteq> [] \<and> \<not> (\<exists>u \<in> set (gpu_types P). str_contains u (GPUInfo.name D))"
    by (simp add: str_contains_iff)
  then show "\<not> matches_pool D P"
    unfolding matches_pool_def name_check_iff by simp
next
  assume a: "gpu_types P = xs @ ys \<and> (\<exists>ps ss. GPUInfo.name D = ps @ t @ ss)"
  then have "str_contains t (GPUInfo.name D)"
    by (simp add: str_contains_iff)
  then have "\<exists>u \<in> set (xs @ [t] @ ys). str_contains u (GPUInfo.name D)"
    by auto
  then show "matches_pool D (P\<lparr>gpu_types := xs @ [t] @ ys\<rparr>) \<longleftrightarrow>
           memory_gb D \<ge> min_memory_gb P \<and> temperature_c D \<le> max_temp_c P
           \<and> (pool D \<noteq> [] \<longrightarrow> pool D = GPUPool.name P)"
    unfolding matches_pool_def name_check_iff by (auto simp: not_less)
qed

theorem matches_pool_substring_added_witness:
  "gpu_types (rtx_pool\<lparr>gpu_types := [''A100'']\<rparr>) \<noteq> []
   \<and> \<not> (\<exists>u \<in> set (gpu_types (rtx_pool\<lparr>gpu_types := [''A100'']\<rparr>)).
          \<exists>ps ss. GPUInfo.name test_gpu = ps @ u @ ss)
   \<and> \<not> matches_pool test_gpu (rtx_pool\<lparr>gpu_types := [''A100'']\<rparr>)
   \<and> gpu_types (rtx_pool\<lparr>gpu_types := [''A100'']\<rparr>) = [''A100''] @ []
   \<and> (\<exists>ps ss. GPUInfo.name test_gpu = ps @ ''RTX'' @ ss)
   \<and> matches_pool test_gpu (rtx_pool\<lparr>gpu_types := [''A100''] @ [''RTX''] @ []\<rparr>)"
proof -
  have none: "\<not> (\<exists>u \<in> set (gpu_types (rtx_pool\<lparr>gpu_types := [''A100'']\<rparr>)).
          \<exists>ps ss. GPUInfo.name test_gpu = ps @ u @ ss)"
    unfolding str_contains_iff [symmetric] by (simp add: test_gpu_def)
  have occ: "\<exists>ps ss. GPUInfo.name test_gpu = ps @ ''RTX'' @ ss"
    unfolding str_contains_iff [symmetric] by (simp add: test_gpu_def)
  show ?thesis
    using none occ
      matches_pool_substring_added [of "rtx_pool\<lparr>gpu_types := [''A100'']\<rparr>" test_gpu
        "[''A100'']" "[]" "''RTX''"]
    by (simp add: test_gpu_def rtx_pool_def high_mem_def)
qed

text \<open>
  The claim as first stated fails: with the pool \<open>high_mem\<close> restricted to the name
  substring \<open>A100\<close>, the device \<open>small_gpu\<close> (8 GB, under the pool's floor of 16 GB)
  does not match, and it still does not match once \<open>RTX\<close>, which occurs in its name, is
  added to the list.
\<close>

theorem matches_pool_substring_added_counterexample:
  "gpu_types (high_mem\<lparr>gpu_types := [''A100'']\<rparr>) \<noteq> []
   \<and> \<not> str_contains ''A100'' (GPUInfo.name small_gpu)
   \<and> str_contains ''RTX'' (GPUInfo.name small_gpu)
   \<and> \<not> matches_pool small_gpu (high_mem\<lparr>gpu_types := [''A100'']\<rparr>)
   \<and> \<not> matches_pool small_gpu (high_mem\<lparr>gpu_types := [''A100'', ''RTX'']\<rparr>)"
  by (simp add: matches_pool_def small_gpu_def test_gpu_def high_mem_def)

section \<open>Requirements\<close>

lemma meets_requirements_well_typed:
  "req_well_typed R \<Longrightarrow>
   meets_requirements D R = Inr
     ((case R ''min_memory'' of Some (PNum m) \<Rightarrow> memory_gb D \<ge> m | _ \<Rightarrow> True)
      \<and> (case R ''max_temp'' of Some (PNum t) \<Rightarrow> temperature_c D \<le> t | _ \<Rightarrow> True)
      \<and> (case R ''tags'' of Some (PList ts) \<Rightarrow> set ts \<subseteq> set (tags D) | _ \<Rightarrow> True))"
  unfolding req_well_typed_def meets_requirements_def
  by (auto split: option.splits pyval.splits bool.splits simp: not_less)

lemma meets_requirements_other_key:
  "k \<notin> {''min_memory'', ''max_temp'', ''tags''} \<Longrightarrow>
   meets_requirements D (R(k := x)) = meets_requirements D R"
proof -
  assume "k \<notin> {''min_memory'', ''max_temp'', ''tags''}"
  then have "(R(k := x)) ''min_memory'' = R ''min_memory''"
    and "(R(k := x)) ''max_temp'' = R ''max_temp''"
    and "(R(k := x)) ''tags'' = R ''tags''"
    by auto
  then show ?thesis
    unfolding meets_requirements_def by (simp only:)
qed

text \<open>
  C5: for a well-typed requirement dictionary, the check returns true exactly when the
  device's memory is at least \<open>min_memory\<close> where that key is present, its temperature
  is at most \<open>max_temp\<close> where that key is present, and the \<open>tags\<close>, where present, are
  all among the device's tags. Setting or removing any other key leaves the result as
  it is, and the empty dictionary is met by every device.
\<close>

theorem meets_requirements_iff:
  "(req_well_typed R \<longrightarrow>
      meets_requirements D R = Inr
        ((case R ''min_memory'' of Some (PNum m) \<Rightarrow> memory_gb D \<ge> m | _ \<Rightarrow> True)
         \<and> (case R ''max_temp'' of Some (PNum t) \<Rightarrow> temperature_c D \<le> t | _ \<Rightarrow> True)
         \<and> (case R ''tags'' of Some (PList ts) \<Rightarrow> set ts \<subseteq> set (tags D) | _ \<Rightarrow> True)))
   \<and> (k \<notin> {''min_memory'', ''max_temp'', ''tags''} \<longrightarrow>
        meets_requirements D (R(k \<mapsto> v)) = meets_requirements D R
        \<and> meets_requirements D (R(k := None)) = meets_requirements D R)
   \<and> meets_requirements D Map.empty = Inr True"
proof -
  have typed: "req_well_typed R \<longrightarrow>
      meets_requirements D R = Inr
        ((case R ''min_memory'' of Some (PNum m) \<Rightarrow> memory_gb D \<ge> m | _ \<Rightarrow> True)
         \<and> (case R ''max_temp'' of Some (PNum t) \<Rightarrow> temperature_c D \<le> t | _ \<Rightarrow> True)
         \<and> (case R ''tags'' of Some (PList ts) \<Rightarrow> set ts \<subseteq> set (tags D) | _ \<Rightarrow> True))"
    using meets_requirements_well_typed by blast
  have other: "k \<notin> {''min_memory'', ''max_temp'', ''tags''} \<longrightarrow>
        meets_requirements D (R(k \<mapsto> v)) = meets_requirements D R
        \<and> meets_requirements D (R(k := None)) = meets_requirements D R"
    using meets_requirements_other_key by blast
  have empty: "meets_requirements D Map.empty = Inr True"
    by (simp add: meets_requirements_def)
  show ?thesis
    by (intro conjI typed other empty)
qed

theorem meets_requirements_iff_witness:
  "req_well_typed [''min_memory'' \<mapsto> PNum 16, ''tags'' \<mapsto> PList [''fast'']]
   \<and> meets_requirements (test_gpu\<lparr>tags := [''fast'', ''new'']\<rparr>)
        [''min_memory'' \<mapsto> PNum 16, ''tags'' \<mapsto> PList [''fast'']] = Inr True
   \<and> meets_requirements test_gpu
        [''min_memory'' \<mapsto> PNum 16, ''tags'' \<mapsto> PList [''fast'']] = Inr False
   \<and> ''priority'' \<notin> {''min_memory'', ''max_temp'', ''tags''}
   \<and> meets_requirements test_gpu
        [''min_memory'' \<mapsto> PNum 16, ''tags'' \<mapsto> PList [''fast''], ''priority'' \<mapsto> PNone]
      = meets_requirements test_gpu [''min_memory'' \<mapsto> PNum 16, ''tags'' \<mapsto> PList [''fast'']]"
proof -
  have wt: "req_well_typed [''min_memory'' \<mapsto> PNum 16, ''tags'' \<mapsto> PList [''fast'']]"
    by (simp add: req_well_typed_def)
  have k: "''priority'' \<notin> {''min_memory'', ''max_temp'', ''tags''}"
    by simp
  show ?thesis
    using wt k
      meets_requirements_iff [of "[''min_memory'' \<mapsto> PNum 16, ''tags'' \<mapsto> PList [''fast'']]"
        "test_gpu\<lparr>tags := [''fast'', ''new'']\<rparr>" "''priority''" PNone]
      meets_requirements_iff [of "[''min_memory'' \<mapsto> PNum 16, ''tags'' \<mapsto> PList [''fast'']]"
        test_gpu "''priority''" PNone]
    by (simp add: test_gpu_def)
qed

section \<open>Evaluation\<close>

lemma meets_requirements_returns:
  "req_well_typed R \<Longrightarrow> \<exists>b. meets_requirements D R = Inr b"
  by (simp add: meets_requirements_well_typed)

lemma evaluate_loop_True:
  "evaluate_loop D R ps = Inr True \<longleftrightarrow>
     (\<exists>p \<in> set ps. matches_pool D p) \<and> meets_requirements D R = Inr True"
  by (induction ps) (auto split: sum.splits bool.splits)

lemma evaluate_loop_returns:
  "meets_requirements D R = Inr b \<Longrightarrow>
   evaluate_loop D R ps = Inr ((\<exists>p \<in> set ps. matches_pool D p) \<and> b)"
  by (induction ps) (auto split: sum.splits bool.splits)

lemma evaluate_allocation_fst:
  "fst (evaluate_allocation self D R) =
     evaluate_loop D R (fst (get_all_pools (gpu_ops self)))"
  by (simp add: evaluate_allocation_def get_all_pools_def)

text \<open>
  C2: \<open>evaluate_allocation\<close> returns true exactly when some registered pool matches the
  device and the device meets the requirements. For a well-typed requirement dictionary
  it returns a Boolean, which is the truth of that condition, and with no pool registered
  it returns false.
\<close>

theorem evaluate_allocation_iff:
  "(fst (evaluate_allocation self D R) = Inr True \<longleftrightarrow>
      (\<exists>p \<in> set (fst (get_all_pools (gpu_ops self))).
          matches_pool D p \<and> meets_requirements D R = Inr True))
   \<and> (req_well_typed R \<longrightarrow>
        fst (evaluate_allocation self D R) =
          Inr (\<exists>p \<in> set (fst (get_all_pools (gpu_ops self))).
                 matches_pool D p \<and> meets_requirements D R = Inr True))
   \<and> (fst (get_all_pools (gpu_ops self)) = [] \<longrightarrow>
        fst (evaluate_allocation self D R) = Inr False)"
proof (intro conjI impI)
  show "fst (evaluate_allocation self D R) = Inr True \<longleftrightarrow>
      (\<exists>p \<in> set (fst (get_all_pools (gpu_ops self))).
          matches_pool D p \<and> meets_requirements D R = Inr True)"
    unfolding evaluate_allocation_fst evaluate_loop_True by blast
next
  assume "req_well_typed R"
  then obtain b where b: "meets_requirements D R = Inr b"
    using meets_requirements_returns by blast
  show "fst (evaluate_allocation self D R) =
          Inr (\<exists>p \<in> set (fst (get_all_pools (gpu_ops self))).
                 matches_pool D p \<and> meets_requirements D R = Inr True)"
    unfolding evaluate_allocation_fst evaluate_loop_returns [OF b] using b by simp
next
  assume "fst (get_all_pools (gpu_ops self)) = []"
  then show "fst (evaluate_allocation self D R) = Inr False"
    unfolding evaluate_allocation_fst by simp
qed
theorem evaluate_allocation_iff_witness:
  "fst (get_all_pools (gpu_ops (engine_with [high_mem]))) = [high_mem]
   \<and> req_well_typed [''min_memory'' \<mapsto> PNum 16]
   \<and> fst (evaluate_allocation (engine_with [high_mem]) test_gpu [''min_memory'' \<mapsto> PNum 16])
       = Inr True
   \<and> fst (evaluate_allocation (engine_with [high_mem]) small_gpu [''min_memory'' \<mapsto> PNum 16])
       = Inr False
   \<and> fst (get_all_pools (gpu_ops PolicyEngine_init)) = []
   \<and> fst (evaluate_allocation PolicyEngine_init test_gpu [''min_memory'' \<mapsto> PNum 16])
       = Inr False"
proof -
  have ps: "fst (get_all_pools (gpu_ops (engine_with [high_mem]))) = [high_mem]"
    by (simp add: engine_with_def PolicyEngine_init_def GPUOpsModule_init_def
        register_pool_def get_all_pools_def dict_values_def)
  have none: "fst (get_all_pools (gpu_ops PolicyEngine_init)) = []"
    by (simp add: PolicyEngine_init_def GPUOpsModule_init_def get_all_pools_def dict_values_def)
  have wt: "req_well_typed [''min_memory'' \<mapsto> PNum 16]"
    by (simp add: req_well_typed_def)
  have m: "matches_pool test_gpu high_mem" "\<not> matches_pool small_gpu high_mem"
    "meets_requirements test_gpu [''min_memory'' \<mapsto> PNum 16] = Inr True"
    by (simp_all add: matches_pool_def meets_requirements_def test_gpu_def small_gpu_def
        high_mem_def)
  show ?thesis
    using ps none wt m
      evaluate_allocation_iff [of "engine_with [high_mem]" test_gpu "[''min_memory'' \<mapsto> PNum 16]"]
      evaluate_allocation_iff [of "engine_with [high_mem]" small_gpu "[''min_memory'' \<mapsto> PNum 16]"]
      evaluate_allocation_iff [of PolicyEngine_init test_gpu "[''min_memory'' \<mapsto> PNum 16]"]
    by simp
qed

section \<open>Recommendation\<close>

lemma evaluate_allocation_snd: "snd (evaluate_allocation self D R) = self"
  by (simp add: evaluate_allocation_def get_all_pools_def)

lemma evaluate_allocation_returns:
  "req_well_typed R \<Longrightarrow> \<exists>b. fst (evaluate_allocation self D R) = Inr b"
  using meets_requirements_returns [of R D] evaluate_loop_returns [of D R]
  by (auto simp: evaluate_allocation_fst)

lemma recommend_loop_snd: "snd (recommend_loop self R gpus acc) = self"
proof (induction gpus arbitrary: acc)
  case Nil
  show ?case by simp
next
  case (Cons g gpus)
  obtain r where r: "evaluate_allocation self g R = (r, self)"
    using evaluate_allocation_snd [of self g R] by (cases "evaluate_allocation self g R") simp
  show ?case
    using Cons.IH by (simp add: r split: sum.splits bool.splits)
qed

lemma recommend_loop_Inr:
  "fst (recommend_loop self R gpus acc) = Inr recommended \<Longrightarrow>
   recommended = acc @ map (\<lambda>g. (g, score_gpu g))
                   (filter (\<lambda>g. fst (evaluate_allocation self g R) = Inr True) gpus)"
proof (induction gpus arbitrary: acc)
  case Nil
  then show ?case by simp
next
  case (Cons g gpus)
  obtain r where r: "evaluate_allocation self g R = (r, self)"
    using evaluate_allocation_snd [of self g R] by (cases "evaluate_allocation self g R") simp
  show ?case
  proof (cases r)
    case (Inl e)
    with Cons.prems r show ?thesis by simp
  next
    case (Inr b)
    show ?thesis
    proof (cases b)
      case True
      with Cons.prems r Inr
      have "fst (recommend_loop self R gpus (acc @ [(g, score_gpu g)])) = Inr recommended"
        by simp
      from Cons.IH [OF this] r Inr True show ?thesis by simp
    next
      case False
      with Cons.prems r Inr
      have "fst (recommend_loop self R gpus acc) = Inr recommended"
        by simp
      from Cons.IH [OF this] r Inr False show ?thesis by simp
    qed
  qed
qed

lemma recommend_loop_returns:
  "req_well_typed R \<Longrightarrow> \<exists>recommended. fst (recommend_loop self R gpus acc) = Inr recommended"
proof (induction gpus arbitrary: acc)
  case Nil
  show ?case by simp
next
  case (Cons g gpus)
  obtain b where "fst (evaluate_allocation self g R) = Inr b"
    using evaluate_allocation_returns [OF Cons.prems] by blast
  then have r: "evaluate_allocation self g R = (Inr b, self)"
    using evaluate_allocation_snd [of self g R] by (cases "evaluate_allocation self g R") simp
  show ?case
    using Cons.IH [OF Cons.prems] by (cases b) (simp_all add: r)
qed

lemma insort_key_paired:
  "insort_key snd (x, f x) (map (\<lambda>g. (g, f g)) ys) = map (\<lambda>g. (g, f g)) (insort_key f x ys)"
  by (induction ys) simp_all

lemma sort_key_paired:
  "sort_key snd (map (\<lambda>g. (g, f g)) xs) = map (\<lambda>g. (g, f g)) (sort_key f xs)"
  by (induction xs) (simp_all add: insort_key_paired)

lemma sort_reverse_paired:
  "map fst (sort_reverse snd (map (\<lambda>g. (g, f g)) xs)) = sort_reverse f xs"
proof -
  have "rev (map (\<lambda>g. (g, f g)) xs) = map (\<lambda>g. (g, f g)) (rev xs)"
    by (rule rev_map)
  then show ?thesis
    by (simp add: sort_reverse_def sort_key_paired rev_map comp_def)
qed

lemma mset_sort_reverse: "mset (sort_reverse f xs) = mset xs"
  by (simp add: sort_reverse_def)

lemma sorted_sort_reverse: "sorted_wrt (\<lambda>a b. f a \<ge> f b) (sort_reverse f xs)"
proof -
  have "sorted_wrt (\<lambda>a b. f a \<le> f b) (sort_key f (rev xs))"
    using sorted_sort_key [of f "rev xs"] by (simp only: sorted_wrt_map)
  then show ?thesis
    by (simp add: sort_reverse_def sorted_wrt_rev)
qed

lemma sort_reverse_stable:
  "filter (\<lambda>y. f y = k) (sort_reverse f xs) = filter (\<lambda>y. f y = k) xs"
  by (simp add: sort_reverse_def rev_filter [symmetric] sort_key_stable)

lemma get_recommended_gpus_Inr:
  "fst (get_recommended_gpus self gpus R) = Inr ys \<Longrightarrow>
   ys = sort_reverse score_gpu
          (filter (\<lambda>g. fst (evaluate_allocation self g R) = Inr True) gpus)"
proof -
  assume a: "fst (get_recommended_gpus self gpus R) = Inr ys"
  obtain r s where rs: "recommend_loop self R gpus [] = (r, s)"
    by (cases "recommend_loop self R gpus []")
  show ?thesis
  proof (cases r)
    case (Inl e)
    with a rs show ?thesis by (simp add: get_recommended_gpus_def)
  next
    case (Inr recommended)
    then have "fst (recommend_loop self R gpus []) = Inr recommended"
      using rs by simp
    from recommend_loop_Inr [OF this] a rs Inr show ?thesis
      by (simp add: get_recommended_gpus_def sort_reverse_paired)
  qed
qed

lemma get_recommended_gpus_returns:
  "req_well_typed R \<Longrightarrow> \<exists>ys. fst (get_recommended_gpus self gpus R) = Inr ys"
proof -
  assume "req_well_typed R"
  then obtain recommended where "fst (recommend_loop self R gpus []) = Inr recommended"
    using recommend_loop_returns by blast
  then show ?thesis
    by (cases "recommend_loop self R gpus []") (simp add: get_recommended_gpus_def)
qed

lemma get_recommended_gpus_snd: "snd (get_recommended_gpus self gpus R) = self"
  using recommend_loop_snd [of self R gpus "[]"]
  by (cases "recommend_loop self R gpus []") (simp add: get_recommended_gpus_def split: sum.splits)

text \<open>
  C1: the recommendation of a well-typed request returns a list; a returned list holds
  exactly the devices of the input for which \<open>evaluate_allocation\<close> is true, each as
  often as the input holds it, in order of non-increasing score, and for every score the
  returned devices of that score stand in the order in which the input has them.
\<close>

theorem get_recommended_gpus_sorted_filter:
  "(req_well_typed R \<longrightarrow> (\<exists>ys. fst (get_recommended_gpus self gpus R) = Inr ys))
   \<and> (\<forall>ys. fst (get_recommended_gpus self gpus R) = Inr ys \<longrightarrow>
         mset ys = mset (filter (\<lambda>d. fst (evaluate_allocation self d R) = Inr True) gpus)
         \<and> sorted_wrt (\<lambda>a b. score_gpu a \<ge> score_gpu b) ys
         \<and> (\<forall>s. filter (\<lambda>d. score_gpu d = s) ys =
                 filter (\<lambda>d. score_gpu d = s)
                   (filter (\<lambda>d. fst (evaluate_allocation self d R) = Inr True) gpus)))"
proof (intro conjI allI impI)
  assume "req_well_typed R"
  then show "\<exists>ys. fst (get_recommended_gpus self gpus R) = Inr ys"
    by (rule get_recommended_gpus_returns)
next
  fix ys
  assume "fst (get_recommended_gpus self gpus R) = Inr ys"
  then have ys: "ys = sort_reverse score_gpu
      (filter (\<lambda>g. fst (evaluate_allocation self g R) = Inr True) gpus)"
    by (rule get_recommended_gpus_Inr)
  show "mset ys = mset (filter (\<lambda>d. fst (evaluate_allocation self d R) = Inr True) gpus)"
    unfolding ys by (rule mset_sort_reverse)
  show "sorted_wrt (\<lambda>a b. score_gpu a \<ge> score_gpu b) ys"
    unfolding ys by (rule sorted_sort_reverse)
  fix s
  show "filter (\<lambda>d. score_gpu d = s) ys =
          filter (\<lambda>d. score_gpu d = s)
            (filter (\<lambda>d. fst (evaluate_allocation self d R) = Inr True) gpus)"
    unfolding ys by (rule sort_reverse_stable)
qed
theorem get_recommended_gpus_sorted_filter_witness:
  "req_well_typed [''min_memory'' \<mapsto> PNum 16]
   \<and> fst (get_recommended_gpus (engine_with [rtx_pool])
            [hot_gpu, small_gpu, test_gpu, test_gpu\<lparr>id' := 3\<rparr>] [''min_memory'' \<mapsto> PNum 16])
       = Inr [test_gpu, test_gpu\<lparr>id' := 3\<rparr>, hot_gpu]
   \<and> mset [test_gpu, test_gpu\<lparr>id' := 3\<rparr>, hot_gpu] =
       mset (filter (\<lambda>d. fst (evaluate_allocation (engine_with [rtx_pool]) d
                                 [''min_memory'' \<mapsto> PNum 16]) = Inr True)
              [hot_gpu, small_gpu, test_gpu, test_gpu\<lparr>id' := 3\<rparr>])
   \<and> sorted_wrt (\<lambda>a b. score_gpu a \<ge> score_gpu b) [test_gpu, test_gpu\<lparr>id' := 3\<rparr>, hot_gpu]
   \<and> filter (\<lambda>d. score_gpu d = 2) [test_gpu, test_gpu\<lparr>id' := 3\<rparr>, hot_gpu] =
       filter (\<lambda>d. score_gpu d = 2)
         (filter (\<lambda>d. fst (evaluate_allocation (engine_with [rtx_pool]) d
                              [''min_memory'' \<mapsto> PNum 16]) = Inr True)
            [hot_gpu, small_gpu, test_gpu, test_gpu\<lparr>id' := 3\<rparr>])"
proof -
  have wt: "req_well_typed [''min_memory'' \<mapsto> PNum 16]"
    by (simp add: req_well_typed_def)
  have run: "fst (get_recommended_gpus (engine_with [rtx_pool])
            [hot_gpu, small_gpu, test_gpu, test_gpu\<lparr>id' := 3\<rparr>] [''min_memory'' \<mapsto> PNum 16])
       = Inr [test_gpu, test_gpu\<lparr>id' := 3\<rparr>, hot_gpu]"
    by (simp add: get_recommended_gpus_def evaluate_allocation_def get_all_pools_def
        dict_values_def engine_with_def PolicyEngine_init_def GPUOpsModule_init_def
        register_pool_def matches_pool_def meets_requirements_def score_gpu_def
        sort_reverse_def rtx_pool_def high_mem_def hot_gpu_def small_gpu_def test_gpu_def)
  show ?thesis
    using wt run
      get_recommended_gpus_sorted_filter [of "[''min_memory'' \<mapsto> PNum 16]"
        "engine_with [rtx_pool]" "[hot_gpu, small_gpu, test_gpu, test_gpu\<lparr>id' := 3\<rparr>]"]
    by simp
qed

section \<open>Frame\<close>

text \<open>
  C9: \<open>evaluate_allocation\<close> and \<open>get_recommended_gpus\<close> leave the engine, with its
  registry of pools and schedules, as they found it, whether they return a result or
  raise. Devices are values that the two functions only read: every device that a
  recommendation returns is one of the devices supplied.
\<close>

theorem evaluation_frame:
  "snd (evaluate_allocation self D R) = self
   \<and> snd (get_recommended_gpus self gpus R) = self
   \<and> GPUOpsModule.pools (gpu_ops (snd (get_recommended_gpus self gpus R)))
       = GPUOpsModule.pools (gpu_ops self)
   \<and> GPUOpsModule.schedules (gpu_ops (snd (get_recommended_gpus self gpus R)))
       = GPUOpsModule.schedules (gpu_ops self)
   \<and> (\<forall>ys. fst (get_recommended_gpus self gpus R) = Inr ys \<longrightarrow> set ys \<subseteq> set gpus)"
proof -
  have "set ys \<subseteq> set gpus" if "fst (get_recommended_gpus self gpus R) = Inr ys" for ys
  proof -
    have "set ys = set (filter (\<lambda>g. fst (evaluate_allocation self g R) = Inr True) gpus)"
      unfolding get_recommended_gpus_Inr [OF that] using mset_sort_reverse by (rule mset_eq_setD)
    then show ?thesis by auto
  qed
  then show ?thesis
    by (simp add: evaluate_allocation_snd get_recommended_gpus_snd)
qed

theorem evaluation_frame_witness:
  "snd (evaluate_allocation (engine_with [rtx_pool]) test_gpu [''min_memory'' \<mapsto> PNum 16])
     = engine_with [rtx_pool]
   \<and> snd (get_recommended_gpus (engine_with [rtx_pool]) [hot_gpu, small_gpu]
            [''min_memory'' \<mapsto> PNone]) = engine_with [rtx_pool]
   \<and> fst (get_recommended_gpus (engine_with [rtx_pool]) [hot_gpu, small_gpu]
            [''min_memory'' \<mapsto> PNone]) = Inl TypeError
   \<and> fst (get_recommended_gpus (engine_with [rtx_pool]) [hot_gpu, small_gpu]
            [''min_memory'' \<mapsto> PNum 16]) = Inr [hot_gpu]
   \<and> set [hot_gpu] \<subseteq> set [hot_gpu, small_gpu]"
proof -
  have err: "fst (get_recommended_gpus (engine_with [rtx_pool]) [hot_gpu, small_gpu]
            [''min_memory'' \<mapsto> PNone]) = Inl TypeError"
    by (simp add: get_recommended_gpus_def evaluate_allocation_def get_all_pools_def
        dict_values_def engine_with_def PolicyEngine_init_def GPUOpsModule_init_def
        register_pool_def matches_pool_def meets_requirements_def
        rtx_pool_def high_mem_def hot_gpu_def small_gpu_def test_gpu_def)
  have run: "fst (get_recommended_gpus (engine_with [rtx_pool]) [hot_gpu, small_gpu]
            [''min_memory'' \<mapsto> PNum 16]) = Inr [hot_gpu]"
    by (simp add: get_recommended_gpus_def evaluate_allocation_def get_all_pools_def
        dict_values_def engine_with_def PolicyEngine_init_def GPUOpsModule_init_def
        register_pool_def matches_pool_def meets_requirements_def score_gpu_def
        sort_reverse_def rtx_pool_def high_mem_def hot_gpu_def small_gpu_def test_gpu_def)
  show ?thesis
    using err run
      evaluation_frame [of "engine_with [rtx_pool]" test_gpu "[''min_memory'' \<mapsto> PNum 16]"
        "[hot_gpu, small_gpu]"]
      evaluation_frame [of "engine_with [rtx_pool]" test_gpu "[''min_memory'' \<mapsto> PNone]"
        "[hot_gpu, small_gpu]"]
      evaluation_frame [of "engine_with [rtx_pool]" test_gpu "[''min_memory'' \<mapsto> PNum 16]"
        "[hot_gpu, small_gpu]"]
    by simp
qed
section \<open>Registry properties\<close>

lemma dict_get_setitem:
  "dict_get k' (dict_setitem k v d) = (if k' = k then Some v else dict_get k' d)"
  by (induction d) auto

lemma keys_setitem:
  "map fst (dict_setitem k v d) =
     (if k \<in> set (map fst d) then map fst d else map fst d @ [k])"
  by (induction d) (auto split: if_splits)

lemma set_setitem: "set (dict_setitem k v d) \<subseteq> insert (k, v) (set d)"
  by (induction d) (auto split: if_splits)

lemma dict_get_entries:
  "distinct (map fst d) \<Longrightarrow> map (\<lambda>k. dict_get k d) (map fst d) = map (\<lambda>e. Some (snd e)) d"
proof (induction d)
  case Nil
  show ?case by simp
next
  case (Cons e d)
  obtain k v where e: "e = (k, v)" by (cases e)
  have "map (\<lambda>k'. dict_get k' (e # d)) (map fst d) = map (\<lambda>k'. dict_get k' d) (map fst d)"
    using Cons.prems by (intro map_cong) (auto simp: e)
  then show ?case
    using Cons by (simp add: e)
qed

lemma set_first_occurrences: "set (first_occurrences ns) = set ns"
  by (induction ns) auto

lemma distinct_first_occurrences: "distinct (first_occurrences ns)"
  by (induction ns) (simp_all add: distinct_removeAll)

lemma first_occurrences_snoc:
  "first_occurrences (ns @ [n]) =
     (if n \<in> set ns then first_occurrences ns else first_occurrences ns @ [n])"
  by (induction ns) (auto simp: set_first_occurrences)

lemma latest_None: "latest key n xs = None \<longleftrightarrow> n \<notin> key ` set xs"
  by (auto simp: latest_def find_None_iff)

lemma registrations_keys:
  "map fst (foldl (\<lambda>d x. dict_setitem (key x) x d) [] xs) = first_occurrences (map key xs)"
proof (induction xs rule: rev_induct)
  case Nil
  show ?case by simp
next
  case (snoc x xs)
  then show ?case
    by (simp add: keys_setitem first_occurrences_snoc set_first_occurrences)
qed

lemma registrations_get:
  "dict_get n (foldl (\<lambda>d x. dict_setitem (key x) x d) [] xs) = latest key n xs"
  by (induction xs rule: rev_induct) (auto simp: dict_get_setitem latest_def)

lemma registrations_values:
  "map Some (dict_values (foldl (\<lambda>d x. dict_setitem (key x) x d) [] xs)) =
     map (\<lambda>n. latest key n xs) (first_occurrences (map key xs))"
proof -
  let ?d = "foldl (\<lambda>d x. dict_setitem (key x) x d) [] xs"
  have "distinct (map fst ?d)"
    by (simp add: registrations_keys distinct_first_occurrences)
  then have "map (\<lambda>k. dict_get k ?d) (map fst ?d) = map (\<lambda>e. Some (snd e)) ?d"
    by (rule dict_get_entries)
  then show ?thesis
    by (simp add: registrations_keys registrations_get dict_values_def comp_def)
qed

lemma registrations_value_names:
  "map key (dict_values (foldl (\<lambda>d x. dict_setitem (key x) x d) [] xs)) =
     first_occurrences (map key xs)"
proof -
  let ?d = "foldl (\<lambda>d x. dict_setitem (key x) x d) [] xs"
  have "\<forall>e \<in> set ?d. key (snd e) = fst e"
  proof (induction xs rule: rev_induct)
    case Nil
    show ?case by simp
  next
    case (snoc x xs)
    then show ?case
      using set_setitem [of "key x" x "foldl (\<lambda>d x. dict_setitem (key x) x d) [] xs"]
      by auto
  qed
  then have "map key (dict_values ?d) = map fst ?d"
    by (simp add: dict_values_def)
  then show ?thesis
    by (simp add: registrations_keys)
qed

lemma run_calls_pools:
  "GPUOpsModule.pools (run_calls self cs) =
     foldl (\<lambda>d p. dict_setitem (GPUPool.name p) p d) (GPUOpsModule.pools self)
       (registered_pools cs)"
  by (induction self cs rule: run_calls.induct)
     (simp_all add: register_pool_def register_schedule_def)

lemma run_calls_schedules:
  "GPUOpsModule.schedules (run_calls self cs) =
     foldl (\<lambda>d s. dict_setitem (ScheduleRuleset.name s) s d) (GPUOpsModule.schedules self)
       (registered_schedules cs)"
  by (induction self cs rule: run_calls.induct)
     (simp_all add: register_pool_def register_schedule_def)

text \<open>
  C7: after any sequence of registrations on a new registry, pool names are unique;
  \<open>get_pool\<close> returns the most recent registration of the name and nothing for a name
  never registered; the listing has the names in the order of their first registration,
  each position holding the most recent pool of its name; and the same holds of the
  schedules under \<open>get_schedule\<close>. On any registry, a registration is found again under
  its name, leaves the other names as they are, and keeps the position of a name already
  present.
\<close>

theorem registry_last_write_wins:
  "distinct (map GPUPool.name (fst (get_all_pools (run_calls GPUOpsModule_init cs))))
   \<and> fst (get_pool (run_calls GPUOpsModule_init cs) n)
       = latest GPUPool.name n (registered_pools cs)
   \<and> (n \<notin> GPUPool.name ` set (registered_pools cs) \<longrightarrow>
        fst (get_pool (run_calls GPUOpsModule_init cs) n) = None)
   \<and> map GPUPool.name (fst (get_all_pools (run_calls GPUOpsModule_init cs)))
       = first_occurrences (map GPUPool.name (registered_pools cs))
   \<and> map Some (fst (get_all_pools (run_calls GPUOpsModule_init cs)))
       = map (\<lambda>n. latest GPUPool.name n (registered_pools cs))
           (first_occurrences (map GPUPool.name (registered_pools cs)))
   \<and> distinct (map fst (GPUOpsModule.schedules (run_calls GPUOpsModule_init cs)))
   \<and> fst (get_schedule (run_calls GPUOpsModule_init cs) n)
       = latest ScheduleRuleset.name n (registered_schedules cs)
   \<and> (n \<notin> ScheduleRuleset.name ` set (registered_schedules cs) \<longrightarrow>
        fst (get_schedule (run_calls GPUOpsModule_init cs) n) = None)
   \<and> map fst (GPUOpsModule.schedules (run_calls GPUOpsModule_init cs))
       = first_occurrences (map ScheduleRuleset.name (registered_schedules cs))
   \<and> fst (get_pool (snd (register_pool self p)) (GPUPool.name p)) = Some p
   \<and> (n \<noteq> GPUPool.name p \<longrightarrow>
        fst (get_pool (snd (register_pool self p)) n) = fst (get_pool self n))
   \<and> map fst (GPUOpsModule.pools (snd (register_pool self p)))
       = (if GPUPool.name p \<in> set (map fst (GPUOpsModule.pools self))
          then map fst (GPUOpsModule.pools self)
          else map fst (GPUOpsModule.pools self) @ [GPUPool.name p])"
proof -
  let ?m = "run_calls GPUOpsModule_init cs"
  have ps: "GPUOpsModule.pools ?m =
      foldl (\<lambda>d p. dict_setitem (GPUPool.name p) p d) [] (registered_pools cs)"
    by (simp add: run_calls_pools GPUOpsModule_init_def)
  have ss: "GPUOpsModule.schedules ?m =
      foldl (\<lambda>d s. dict_setitem (ScheduleRuleset.name s) s d) [] (registered_schedules cs)"
    by (simp add: run_calls_schedules GPUOpsModule_init_def)
  have names: "map GPUPool.name (fst (get_all_pools ?m))
       = first_occurrences (map GPUPool.name (registered_pools cs))"
    by (simp add: get_all_pools_def ps registrations_value_names)
  have uniq: "distinct (map GPUPool.name (fst (get_all_pools ?m)))"
    by (simp only: names distinct_first_occurrences)
  have get: "fst (get_pool ?m n) = latest GPUPool.name n (registered_pools cs)"
    by (simp add: get_pool_def ps registrations_get)
  have absent: "n \<notin> GPUPool.name ` set (registered_pools cs) \<longrightarrow> fst (get_pool ?m n) = None"
    by (simp only: get latest_None) simp
  have listing: "map Some (fst (get_all_pools ?m))
       = map (\<lambda>n. latest GPUPool.name n (registered_pools cs))
           (first_occurrences (map GPUPool.name (registered_pools cs)))"
    by (simp add: get_all_pools_def ps registrations_values)
  have skeys: "map fst (GPUOpsModule.schedules ?m)
       = first_occurrences (map ScheduleRuleset.name (registered_schedules cs))"
    by (simp add: ss registrations_keys)
  have suniq: "distinct (map fst (GPUOpsModule.schedules ?m))"
    by (simp only: skeys distinct_first_occurrences)
  have sget: "fst (get_schedule ?m n) = latest ScheduleRuleset.name n (registered_schedules cs)"
    by (simp add: get_schedule_def ss registrations_get)
  have sabsent: "n \<notin> ScheduleRuleset.name ` set (registered_schedules cs) \<longrightarrow>
        fst (get_schedule ?m n) = None"
    by (simp only: sget latest_None) simp
  have step1: "fst (get_pool (snd (register_pool self p)) (GPUPool.name p)) = Some p"
    by (simp add: get_pool_def register_pool_def dict_get_setitem)
  have step2: "n \<noteq> GPUPool.name p \<longrightarrow>
        fst (get_pool (snd (register_pool self p)) n) = fst (get_pool self n)"
    by (simp add: get_pool_def register_pool_def dict_get_setitem)
  have step3: "map fst (GPUOpsModule.pools (snd (register_pool self p)))
       = (if GPUPool.name p \<in> set (map fst (GPUOpsModule.pools self))
          then map fst (GPUOpsModule.pools self)
          else map fst (GPUOpsModule.pools self) @ [GPUPool.name p])"
    by (simp add: register_pool_def keys_setitem)
  show ?thesis
    by (intro conjI uniq get absent names listing suniq sget sabsent skeys step1 step2 step3)
qed
theorem registry_last_write_wins_witness:
  "fst (get_pool (run_calls GPUOpsModule_init sample_calls) ''high-mem'')
     = Some (high_mem\<lparr>min_memory_gb := 32\<rparr>)
   \<and> fst (get_all_pools (run_calls GPUOpsModule_init sample_calls))
       = [high_mem\<lparr>min_memory_gb := 32\<rparr>, rtx_pool]
   \<and> ''gone'' \<notin> GPUPool.name ` set (registered_pools sample_calls)
   \<and> fst (get_pool (run_calls GPUOpsModule_init sample_calls) ''gone'') = None
   \<and> ''gone'' \<notin> ScheduleRuleset.name ` set (registered_schedules sample_calls)
   \<and> fst (get_schedule (run_calls GPUOpsModule_init sample_calls) ''gone'') = None
   \<and> ''gone'' \<noteq> GPUPool.name rtx_pool
   \<and> fst (get_pool (snd (register_pool (run_calls GPUOpsModule_init sample_calls) rtx_pool))
         ''gone'')
       = fst (get_pool (run_calls GPUOpsModule_init sample_calls) ''gone'')"
proof -
  have names: "''gone'' \<notin> GPUPool.name ` set (registered_pools sample_calls)"
    "''gone'' \<notin> ScheduleRuleset.name ` set (registered_schedules sample_calls)"
    "''gone'' \<noteq> GPUPool.name rtx_pool"
    by (simp_all add: sample_calls_def high_mem_def rtx_pool_def balanced_def)
  have latest: "latest GPUPool.name ''high-mem'' (registered_pools sample_calls)
      = Some (high_mem\<lparr>min_memory_gb := 32\<rparr>)"
    by (simp add: latest_def sample_calls_def high_mem_def rtx_pool_def)
  have listing: "fst (get_all_pools (run_calls GPUOpsModule_init sample_calls))
       = [high_mem\<lparr>min_memory_gb := 32\<rparr>, rtx_pool]"
    by (simp add: sample_calls_def GPUOpsModule_init_def register_pool_def
        register_schedule_def get_all_pools_def dict_values_def high_mem_def rtx_pool_def
        balanced_def)
  note high = registry_last_write_wins [of sample_calls "''high-mem''"
      "run_calls GPUOpsModule_init sample_calls" rtx_pool]
  note gone = registry_last_write_wins [of sample_calls "''gone''"
      "run_calls GPUOpsModule_init sample_calls" rtx_pool]
  from high have get: "fst (get_pool (run_calls GPUOpsModule_init sample_calls) ''high-mem'')
      = latest GPUPool.name ''high-mem'' (registered_pools sample_calls)"
    by (elim conjE)
  from names(1) gone have absent1:
    "fst (get_pool (run_calls GPUOpsModule_init sample_calls) ''gone'') = None"
    by blast
  from names(2) gone have absent2:
    "fst (get_schedule (run_calls GPUOpsModule_init sample_calls) ''gone'') = None"
    by blast
  from names(3) gone have absent3:
    "fst (get_pool (snd (register_pool (run_calls GPUOpsModule_init sample_calls) rtx_pool))
         ''gone'')
       = fst (get_pool (run_calls GPUOpsModule_init sample_calls) ''gone'')"
    by blast
  show ?thesis
    by (intro conjI names listing absent1 absent2 absent3) (simp only: get latest)
qed

section \<open>Construction\<close>





end
